theory Spec2Isabelle
  imports Main "HOL-Library.Sublist"
begin

section \<open>Errors and backend calls\<close>

text \<open>
  Every backend call of the front end is an awaited promise: it either resolves with a
  value or rejects, and the rejection is caught by the handler that awaited it. A call's
  outcome is a value of \<open>error + 'a\<close>, \<open>Inl\<close> being the rejection. The error names are
  those of the error taxonomy; \<open>ApiError\<close> stands for any other thrown value.
\<close>

datatype error = ValidationError | TransferError | EnumerationError | ApiError

datatype resolution = upload | download

section \<open>Data of the save-sync panel\<close>

text \<open>
  Modelled from the spec: the declarations of \<open>PendingConflict\<close>, \<open>OfflineQueueItem\<close> and
  \<open>SaveSyncSettings\<close> in \<open>types\<close>, which is not among the sources; the fields are those
  of the data model, and the panel reads no other. \<open>PendingConflict\<close> and
  \<open>OfflineQueueItem\<close> are both addressed by \<open>(rom_id, filename)\<close>; the two fields are
  declared once and extended. Timestamps reach the panel as ISO strings
  (\<open>formatTimeAgo(iso: string)\<close>).
\<close>

record SaveKey =
  rom_id :: int
  filename :: string

record PendingConflict = SaveKey +
  created_at :: string

record OfflineQueueItem = SaveKey +
  operation :: resolution
  error :: string
  failed_at :: string
  attempt_count :: nat

text \<open>
  A conflict mode travels as a string (\<open>"newest_wins" as ConflictMode\<close>); the type
  annotation is erased at run time.
\<close>

record SaveSyncSettingsType =
  sync_before_launch :: bool
  sync_after_exit :: bool
  conflict_mode :: string

text \<open>\<open>Partial<SaveSyncSettingsType>\<close>: every field may be absent.\<close>

record SaveSyncSettingsPartial =
  p_sync_before_launch :: "bool option"
  p_sync_after_exit :: "bool option"
  p_conflict_mode :: "string option"

text \<open>
  Modelled from the spec: the declaration of the summary \<open>syncAllSaves\<close> resolves with,
  which is in \<open>api/backend\<close> and not among the sources. The result returned to the caller
  holds the total items considered, the number of conflicts outstanding and a
  human-readable message. The panel reads \<open>message\<close> and \<open>conflicts\<close>; the handler below
  takes any extension of the record.
\<close>

record SyncAllResult =
  total :: int
  conflicts :: int
  message :: string

datatype backend_call =
    GetSaveSyncSettings
  | UpdateSaveSyncSettings SaveSyncSettingsType
  | SyncAllSaves
  | GetPendingConflicts
  | ResolveConflict int string resolution
  | GetOfflineQueue
  | RetryFailedSync int string
  | ClearOfflineQueue

text \<open>
  The calls that make the backend attempt an upload or a download of a save.
\<close>

fun is_transfer_call :: "backend_call \<Rightarrow> bool" where
  "is_transfer_call SyncAllSaves = True"
| "is_transfer_call (ResolveConflict _ _ _) = True"
| "is_transfer_call (RetryFailedSync _ _) = True"
| "is_transfer_call _ = False"

text \<open>
  The \<open>useState\<close> cells of the component \<open>SaveSyncSettings\<close>. The keys held by
  \<open>resolving\<close> and \<open>retrying\<close> are the template string \<open>`${rom_id}:${filename}`\<close>, kept as
  its two parts: \<open>rom_id\<close> is a number, so the string determines both.
\<close>

record panel =
  settings :: "SaveSyncSettingsType option"
  conflicts :: "PendingConflict list"
  failedOps :: "OfflineQueueItem list"
  syncing :: bool
  syncStatus :: string
  resolving :: "(int \<times> string) option"
  retrying :: "(int \<times> string) option"

section \<open>Handlers of the save-sync panel\<close>

text \<open>
  Each handler takes the outcome of every backend call it may await and the panel before
  the event; it returns the panel after the handler has run to its end, and the backend
  calls it made, in order.
\<close>

definition loadConflicts ::
  "error + PendingConflict list \<Rightarrow> panel \<Rightarrow> panel \<times> backend_call list" where
  "loadConflicts got st =
     (case got of
        Inr cs \<Rightarrow> (st\<lparr>conflicts := cs\<rparr>, [GetPendingConflicts])
      | Inl e \<Rightarrow> (st, [GetPendingConflicts]))"

definition loadFailedOps ::
  "error + OfflineQueueItem list \<Rightarrow> panel \<Rightarrow> panel \<times> backend_call list" where
  "loadFailedOps got st =
     (case got of
        Inr q \<Rightarrow> (st\<lparr>failedOps := q\<rparr>, [GetOfflineQueue])
      | Inl e \<Rightarrow> (st, [GetOfflineQueue]))"

definition merge_settings ::
  "SaveSyncSettingsType \<Rightarrow> SaveSyncSettingsPartial \<Rightarrow> SaveSyncSettingsType" where
  "merge_settings s p =
     \<lparr>sync_before_launch =
        (case p_sync_before_launch p of Some b \<Rightarrow> b | None \<Rightarrow> sync_before_launch s),
      sync_after_exit =
        (case p_sync_after_exit p of Some b \<Rightarrow> b | None \<Rightarrow> sync_after_exit s),
      conflict_mode =
        (case p_conflict_mode p of Some m \<Rightarrow> m | None \<Rightarrow> conflict_mode s)\<rparr>"

definition handleSettingChange ::
  "SaveSyncSettingsPartial \<Rightarrow> error + SaveSyncSettingsType \<Rightarrow> panel
     \<Rightarrow> panel \<times> backend_call list" where
  "handleSettingChange partial saved st =
     (case settings st of
        None \<Rightarrow> (st, [])
      | Some s \<Rightarrow>
          (let updated = merge_settings s partial;
               st1 = st\<lparr>settings := Some updated\<rparr>
           in (case saved of
                 Inr _ \<Rightarrow> (st1, [UpdateSaveSyncSettings updated])
               | Inl e \<Rightarrow> (st1, [UpdateSaveSyncSettings updated]))))"

definition handleSyncAll ::
  "error + 'a SyncAllResult_scheme \<Rightarrow> error + PendingConflict list
     \<Rightarrow> error + OfflineQueueItem list \<Rightarrow> panel \<Rightarrow> panel \<times> backend_call list" where
  "handleSyncAll synced got_conflicts got_queue st =
     (let st1 = st\<lparr>syncing := True, syncStatus := ''''\<rparr>
      in (case synced of
            Inr result \<Rightarrow>
              (let st2 = st1\<lparr>syncStatus := message result\<rparr>;
                   (st3, t3) = (if SyncAllResult.conflicts result > 0
                                then loadConflicts got_conflicts st2
                                else (st2, []));
                   (st4, t4) = loadFailedOps got_queue st3
               in (st4\<lparr>syncing := False\<rparr>, [SyncAllSaves] @ t3 @ t4))
          | Inl e \<Rightarrow>
              (st1\<lparr>syncStatus := ''Sync failed'', syncing := False\<rparr>, [SyncAllSaves])))"

definition same_key :: "'a SaveKey_scheme \<Rightarrow> 'b SaveKey_scheme \<Rightarrow> bool" where
  "same_key a b = (rom_id a = rom_id b \<and> filename a = filename b)"

definition handleResolve ::
  "PendingConflict \<Rightarrow> resolution \<Rightarrow> error + unit \<Rightarrow> panel \<Rightarrow> panel \<times> backend_call list" where
  "handleResolve conflict res resolved st =
     (let st1 = st\<lparr>resolving := Some (rom_id conflict, filename conflict)\<rparr>;
          st2 = (case resolved of
                   Inr _ \<Rightarrow> st1\<lparr>conflicts := filter (\<lambda>c. \<not> same_key c conflict) (conflicts st1)\<rparr>
                 | Inl e \<Rightarrow> st1)
      in (st2\<lparr>resolving := None\<rparr>,
          [ResolveConflict (rom_id conflict) (filename conflict) res]))"

text \<open>\<open>retryFailedSync\<close> resolves with \<open>{success: bool}\<close>, here the boolean.\<close>

definition handleRetry ::
  "OfflineQueueItem \<Rightarrow> error + bool \<Rightarrow> panel \<Rightarrow> panel \<times> backend_call list" where
  "handleRetry item retried st =
     (let st1 = st\<lparr>retrying := Some (rom_id item, filename item)\<rparr>;
          st2 = (case retried of
                   Inr success \<Rightarrow>
                     (if success
                      then st1\<lparr>failedOps := filter (\<lambda>f. \<not> same_key f item) (failedOps st1)\<rparr>
                      else st1)
                 | Inl e \<Rightarrow> st1)
      in (st2\<lparr>retrying := None\<rparr>, [RetryFailedSync (rom_id item) (filename item)]))"

definition handleClearQueue :: "error + unit \<Rightarrow> panel \<Rightarrow> panel \<times> backend_call list" where
  "handleClearQueue cleared st =
     (case cleared of
        Inr _ \<Rightarrow> (st\<lparr>failedOps := []\<rparr>, [ClearOfflineQueue])
      | Inl e \<Rightarrow> (st, [ClearOfflineQueue]))"

section \<open>Concrete panels for the instances below\<close>

definition conflict7 :: PendingConflict where
  "conflict7 = \<lparr>rom_id = 7, filename = ''save.dat'', created_at = ''2025-01-01T10:00:00''\<rparr>"

definition conflict8 :: PendingConflict where
  "conflict8 = \<lparr>rom_id = 8, filename = ''save.dat'', created_at = ''2025-01-01T11:00:00''\<rparr>"

definition failed7 :: OfflineQueueItem where
  "failed7 = \<lparr>rom_id = 7, filename = ''save.dat'', operation = upload,
     error = ''timeout'', failed_at = ''2025-01-02T10:00:00'', attempt_count = 1\<rparr>"

definition failed9 :: OfflineQueueItem where
  "failed9 = \<lparr>rom_id = 9, filename = ''slot1.srm'', operation = download,
     error = ''HTTP 500'', failed_at = ''2025-01-02T11:00:00'', attempt_count = 2\<rparr>"

definition panel0 :: panel where
  "panel0 = \<lparr>settings = Some \<lparr>sync_before_launch = True, sync_after_exit = True,
                 conflict_mode = ''ask_me''\<rparr>,
     conflicts = [conflict7, conflict8], failedOps = [failed7, failed9],
     syncing = False, syncStatus = '''', resolving = None, retrying = None\<rparr>"

section \<open>Resolve, retry and clear\<close>

definition key_of :: "'a SaveKey_scheme \<Rightarrow> int \<times> string" where
  "key_of a = (rom_id a, filename a)"

lemma same_key_iff: "same_key a b \<longleftrightarrow> key_of a = key_of b"
  by (simp add: same_key_def key_of_def)

text \<open>
  Where the keys of a list are pairwise different, dropping the entries that have the
  key of a member drops that member and nothing else.
\<close>

lemma filter_other_keys:
  "key_of c \<notin> key_of ` set xs \<Longrightarrow> filter (\<lambda>x. key_of x \<noteq> key_of c) xs = xs"
  by (induction xs) auto

lemma filter_key_remove1:
  "distinct (map key_of xs) \<Longrightarrow> c \<in> set xs \<Longrightarrow>
     filter (\<lambda>x. \<not> same_key x c) xs = remove1 c xs"
proof (induction xs)
  case Nil
  then show ?case by simp
next
  case (Cons x xs)
  show ?case
  proof (cases "x = c")
    case True
    with Cons.prems have "key_of c \<notin> key_of ` set xs" by simp
    then show ?thesis using True by (simp add: filter_other_keys same_key_iff)
  next
    case False
    with Cons.prems have mem: "c \<in> set xs" by simp
    with Cons.prems have "key_of x \<noteq> key_of c" by force
    with Cons mem False show ?thesis by (simp add: same_key_iff)
  qed
qed

text \<open>
  C1. A resolve call that succeeds removes from the pending-conflicts list the entry with
  the key \<open>(rom_id, filename)\<close> of the resolved conflict, keeps every other entry in
  place, and leaves the offline-queue list as it was; where keys are unique and the
  conflict is listed, the list loses exactly that one entry. A resolve call that fails
  leaves both lists as they were. In either case the only backend call made is the resolve
  call itself.
\<close>

theorem handleResolve_lists:
  "conflicts (fst (handleResolve c res (Inr u) st))
      = filter (\<lambda>x. \<not> same_key x c) (conflicts st)
   \<and> (distinct (map key_of (conflicts st)) \<and> c \<in> set (conflicts st) \<longrightarrow>
        conflicts (fst (handleResolve c res (Inr u) st)) = remove1 c (conflicts st))
   \<and> failedOps (fst (handleResolve c res (Inr u) st)) = failedOps st
   \<and> conflicts (fst (handleResolve c res (Inl e) st)) = conflicts st
   \<and> failedOps (fst (handleResolve c res (Inl e) st)) = failedOps st
   \<and> snd (handleResolve c res outcome st) = [ResolveConflict (rom_id c) (filename c) res]"
  by (simp add: handleResolve_def Let_def filter_key_remove1)

theorem handleResolve_lists_witness:
  "distinct (map key_of (conflicts panel0)) \<and> conflict7 \<in> set (conflicts panel0)
   \<and> conflicts (fst (handleResolve conflict7 upload (Inr ()) panel0)) = [conflict8]
   \<and> failedOps (fst (handleResolve conflict7 upload (Inr ()) panel0)) = [failed7, failed9]
   \<and> conflicts (fst (handleResolve conflict7 upload (Inl TransferError) panel0))
        = [conflict7, conflict8]
   \<and> failedOps (fst (handleResolve conflict7 upload (Inl TransferError) panel0))
        = [failed7, failed9]"
  using handleResolve_lists [of conflict7 upload "()" panel0 TransferError "Inr ()"]
  by (simp add: panel0_def conflict7_def conflict8_def key_of_def same_key_def)

text \<open>
  C2. A retry call that returns success removes from the offline-queue list the entry
  with the key \<open>(rom_id, filename)\<close> of the retried item and keeps every other entry in
  place; where keys are unique and the item is listed, the list loses exactly that one
  entry. A retry call that returns failure, or that throws, leaves the list as it was.
\<close>

theorem handleRetry_queue:
  "failedOps (fst (handleRetry item (Inr True) st))
      = filter (\<lambda>f. \<not> same_key f item) (failedOps st)
   \<and> (distinct (map key_of (failedOps st)) \<and> item \<in> set (failedOps st) \<longrightarrow>
        failedOps (fst (handleRetry item (Inr True) st)) = remove1 item (failedOps st))
   \<and> failedOps (fst (handleRetry item (Inr False) st)) = failedOps st
   \<and> failedOps (fst (handleRetry item (Inl e) st)) = failedOps st"
  by (simp add: handleRetry_def Let_def filter_key_remove1)

theorem handleRetry_queue_witness:
  "distinct (map key_of (failedOps panel0)) \<and> failed7 \<in> set (failedOps panel0)
   \<and> failedOps (fst (handleRetry failed7 (Inr True) panel0)) = [failed9]
   \<and> failedOps (fst (handleRetry failed7 (Inr False) panel0)) = [failed7, failed9]
   \<and> failedOps (fst (handleRetry failed7 (Inl TransferError) panel0)) = [failed7, failed9]"
  using handleRetry_queue [of failed7 panel0 TransferError]
  by (simp add: panel0_def failed7_def failed9_def key_of_def same_key_def)

text \<open>
  C5. A clear call that completes leaves the offline-queue list empty, whatever it held,
  and the handler makes one backend call, the clear call: none that has a save uploaded
  or downloaded.
\<close>

theorem handleClearQueue_empties:
  "failedOps (fst (handleClearQueue (Inr u) st)) = []
   \<and> snd (handleClearQueue (Inr u) st) = [ClearOfflineQueue]
   \<and> filter is_transfer_call (snd (handleClearQueue (Inr u) st)) = []"
  by (simp add: handleClearQueue_def)

theorem handleClearQueue_empties_witness:
  "failedOps panel0 = [failed7, failed9]
   \<and> failedOps (fst (handleClearQueue (Inr ()) panel0)) = []
   \<and> snd (handleClearQueue (Inr ()) panel0) = [ClearOfflineQueue]"
  using handleClearQueue_empties [of "()" panel0]
  by (simp add: panel0_def)

section \<open>Sync all saves\<close>

text \<open>
  C3, as amended. Every completed \<open>syncAllSaves\<close> call returns a record containing the
  total items considered, the number of outstanding conflicts and a human-readable
  message, which the panel shows; the returned conflict count triggers the caller to
  refresh its pending-conflicts view exactly when it is greater than zero: then the panel
  asks the backend for the pending conflicts and takes the answer as its list, and with a
  count of zero it does not ask and its list is as it was.
\<close>

theorem handleSyncAll_completed:
  "(let R = handleSyncAll (Inr result) got_conflicts got_queue st in
      syncStatus (fst R) = SyncAllResult.message result
    \<and> (GetPendingConflicts \<in> set (snd R) \<longleftrightarrow> 0 < SyncAllResult.conflicts result)
    \<and> conflicts (fst R) =
        (if 0 < SyncAllResult.conflicts result
         then (case got_conflicts of Inr cs \<Rightarrow> cs | Inl e \<Rightarrow> conflicts st)
         else conflicts st))"
  by (simp add: handleSyncAll_def loadConflicts_def loadFailedOps_def Let_def
      split: sum.splits)

theorem handleSyncAll_completed_witness:
  "(let R = handleSyncAll
              (Inr \<lparr>total = 3, conflicts = 1, message = ''Synced 3 saves, 1 conflict''\<rparr>)
              (Inr [conflict8]) (Inr [failed9]) panel0 in
      syncStatus (fst R) = ''Synced 3 saves, 1 conflict''
    \<and> GetPendingConflicts \<in> set (snd R)
    \<and> conflicts (fst R) = [conflict8])"
  using handleSyncAll_completed
    [of "\<lparr>total = 3, conflicts = 1, message = ''Synced 3 saves, 1 conflict''\<rparr>"
        "Inr [conflict8]" "Inr [failed9]" panel0]
  by (simp add: Let_def)

text \<open>
  The claim as first stated has every completed call refresh the conflict view. A call
  that returns a conflict count of zero does not: the panel keeps the two conflicts it
  showed, although the backend would have answered with none, and never asks.
\<close>

theorem handleSyncAll_zero_conflicts_no_refresh:
  "GetPendingConflicts \<notin> set (snd (handleSyncAll
       (Inr \<lparr>total = 3, conflicts = 0, message = ''Synced 3 saves''\<rparr>)
       (Inr []) (Inr []) panel0))
   \<and> conflicts (fst (handleSyncAll
       (Inr \<lparr>total = 3, conflicts = 0, message = ''Synced 3 saves''\<rparr>)
       (Inr []) (Inr []) panel0))
      = [conflict7, conflict8]
   \<and> [conflict7, conflict8] \<noteq> ([] :: PendingConflict list)"
  by (simp add: handleSyncAll_def loadConflicts_def loadFailedOps_def Let_def panel0_def)

section \<open>Conflict mode\<close>

text \<open>An entry of a dropdown's \<open>rgOptions\<close>.\<close>

record DropdownOption =
  data :: string
  label :: string

definition conflictModeOptions :: "DropdownOption list" where
  "conflictModeOptions =
     [\<lparr>data = ''newest_wins'', label = ''Newest Wins (Default)''\<rparr>,
      \<lparr>data = ''always_upload'', label = ''Always Upload''\<rparr>,
      \<lparr>data = ''always_download'', label = ''Always Download''\<rparr>,
      \<lparr>data = ''ask_me'', label = ''Ask Me''\<rparr>]"

text \<open>
  The three controls of the panel that change a setting, with the value their
  \<open>onChange\<close> receives, and the handler call each of them makes.
\<close>

datatype setting_event =
    SyncBeforeLaunchChanged bool
  | SyncAfterExitChanged bool
  | ConflictModeChanged DropdownOption

fun onChange ::
  "setting_event \<Rightarrow> error + SaveSyncSettingsType \<Rightarrow> panel \<Rightarrow> panel \<times> backend_call list" where
  "onChange (SyncBeforeLaunchChanged v) =
     handleSettingChange
       \<lparr>p_sync_before_launch = Some v, p_sync_after_exit = None, p_conflict_mode = None\<rparr>"
| "onChange (SyncAfterExitChanged v) =
     handleSettingChange
       \<lparr>p_sync_before_launch = None, p_sync_after_exit = Some v, p_conflict_mode = None\<rparr>"
| "onChange (ConflictModeChanged opt) =
     handleSettingChange
       \<lparr>p_sync_before_launch = None, p_sync_after_exit = None,
        p_conflict_mode = Some (data opt)\<rparr>"

text \<open>The dropdown offers the entries of \<open>conflictModeOptions\<close> and no other.\<close>

fun offered :: "setting_event \<Rightarrow> bool" where
  "offered (ConflictModeChanged opt) = (opt \<in> set conflictModeOptions)"
| "offered _ = True"

text \<open>The settings records a list of backend calls submits for storing.\<close>

fun submitted :: "backend_call list \<Rightarrow> SaveSyncSettingsType list" where
  "submitted [] = []"
| "submitted (UpdateSaveSyncSettings u # calls) = u # submitted calls"
| "submitted (_ # calls) = submitted calls"

text \<open>
  Modelled from the spec: the settings store behind \<open>updateSaveSyncSettings\<close>, which is
  backend code and not among the sources. The four defined values of \<open>conflict_mode\<close>
  are \<open>newest_wins\<close>, \<open>always_upload\<close>, \<open>always_download\<close> and \<open>ask_me\<close>. An update
  merges the given fields into the stored record and persists the result; it fails with
  \<open>ValidationError\<close>, changing nothing, if the given \<open>conflict_mode\<close> is not a recognized
  value. The function returns the answer to the caller and the record stored afterwards.
\<close>

definition recognized_mode :: "string \<Rightarrow> bool" where
  "recognized_mode m =
     (m \<in> set [''newest_wins'', ''always_upload'', ''always_download'', ''ask_me''])"

definition updateSaveSyncSettings ::
  "SaveSyncSettingsPartial \<Rightarrow> SaveSyncSettingsType
     \<Rightarrow> (error + SaveSyncSettingsType) \<times> SaveSyncSettingsType" where
  "updateSaveSyncSettings given stored =
     (let merged = merge_settings stored given
      in (case p_conflict_mode given of
            None \<Rightarrow> (Inr merged, merged)
          | Some m \<Rightarrow>
              (if recognized_mode m then (Inr merged, merged)
               else (Inl ValidationError, stored))))"

definition stored0 :: SaveSyncSettingsType where
  "stored0 = \<lparr>sync_before_launch = True, sync_after_exit = True, conflict_mode = ''ask_me''\<rparr>"

definition bogus_update :: SaveSyncSettingsPartial where
  "bogus_update =
     \<lparr>p_sync_before_launch = None, p_sync_after_exit = Some False,
      p_conflict_mode = Some ''bogus''\<rparr>"

lemma offered_mode_recognized:
  "opt \<in> set conflictModeOptions \<Longrightarrow> recognized_mode (data opt)"
  by (auto simp: conflictModeOptions_def recognized_mode_def)

lemma merged_mode_recognized:
  "recognized_mode (conflict_mode s) \<Longrightarrow>
   (case p_conflict_mode p of None \<Rightarrow> True | Some m \<Rightarrow> recognized_mode m) \<Longrightarrow>
   recognized_mode (conflict_mode (merge_settings s p))"
  by (simp add: merge_settings_def split: option.splits)

lemma onChange_submits_recognized:
  assumes "settings st = Some s" and "recognized_mode (conflict_mode s)" and "offered ev"
  shows "submitted (snd (onChange ev saved st))
           = [the (settings (fst (onChange ev saved st)))]
         \<and> recognized_mode (conflict_mode (the (settings (fst (onChange ev saved st)))))"
proof (cases ev)
  case (SyncBeforeLaunchChanged v)
  with assms show ?thesis
    by (simp add: handleSettingChange_def Let_def merged_mode_recognized split: sum.splits)
next
  case (SyncAfterExitChanged v)
  with assms show ?thesis
    by (simp add: handleSettingChange_def Let_def merged_mode_recognized split: sum.splits)
next
  case (ConflictModeChanged opt)
  with assms have "recognized_mode (data opt)"
    by (simp add: offered_mode_recognized)
  with assms ConflictModeChanged show ?thesis
    by (simp add: handleSettingChange_def Let_def merged_mode_recognized split: sum.splits)
qed

text \<open>
  C4. Where the stored \<open>conflict_mode\<close> is one of the four defined values, it still is
  after any update, whatever the update carries: an update whose \<open>conflict_mode\<close> is not
  recognized is answered with \<open>ValidationError\<close> and leaves the stored record as it was,
  and no other value is put in its place. Every update that a control of the settings
  panel submits, from a panel that shows one of the four values, carries one of the four
  values.
\<close>

theorem conflict_mode_always_recognized:
  "(recognized_mode (conflict_mode stored) \<longrightarrow>
      recognized_mode (conflict_mode (snd (updateSaveSyncSettings given stored))))
   \<and> (p_conflict_mode given = Some m \<and> \<not> recognized_mode m \<longrightarrow>
      updateSaveSyncSettings given stored = (Inl ValidationError, stored))
   \<and> (settings st = Some s \<and> recognized_mode (conflict_mode s) \<and> offered ev \<longrightarrow>
      submitted (snd (onChange ev saved st)) \<noteq> []
      \<and> list_all (\<lambda>u. recognized_mode (conflict_mode u))
           (submitted (snd (onChange ev saved st))))"
proof (intro conjI impI)
  assume "recognized_mode (conflict_mode stored)"
  then show "recognized_mode (conflict_mode (snd (updateSaveSyncSettings given stored)))"
    by (auto simp: updateSaveSyncSettings_def Let_def merged_mode_recognized
        split: option.splits)
next
  assume "p_conflict_mode given = Some m \<and> \<not> recognized_mode m"
  then show "updateSaveSyncSettings given stored = (Inl ValidationError, stored)"
    by (simp add: updateSaveSyncSettings_def Let_def)
next
  assume a: "settings st = Some s \<and> recognized_mode (conflict_mode s) \<and> offered ev"
  then show "submitted (snd (onChange ev saved st)) \<noteq> []"
    using onChange_submits_recognized [of st s ev saved] by simp
  from a show "list_all (\<lambda>u. recognized_mode (conflict_mode u))
      (submitted (snd (onChange ev saved st)))"
    using onChange_submits_recognized [of st s ev saved] by simp
qed

theorem conflict_mode_always_recognized_witness:
  "recognized_mode (conflict_mode stored0)
   \<and> p_conflict_mode bogus_update = Some ''bogus'' \<and> \<not> recognized_mode ''bogus''
   \<and> updateSaveSyncSettings bogus_update stored0 = (Inl ValidationError, stored0)
   \<and> conflict_mode (snd (updateSaveSyncSettings bogus_update stored0)) = ''ask_me''
   \<and> settings panel0 = Some stored0
   \<and> offered (ConflictModeChanged \<lparr>data = ''always_upload'', label = ''Always Upload''\<rparr>)
   \<and> submitted (snd (onChange
         (ConflictModeChanged \<lparr>data = ''always_upload'', label = ''Always Upload''\<rparr>)
         (Inl ApiError) panel0))
       = [\<lparr>sync_before_launch = True, sync_after_exit = True,
           conflict_mode = ''always_upload''\<rparr>]"
  using conflict_mode_always_recognized
    [of stored0 bogus_update "''bogus''" panel0 stored0
        "ConflictModeChanged \<lparr>data = ''always_upload'', label = ''Always Upload''\<rparr>"
        "Inl ApiError"]
  by (simp add: stored0_def bogus_update_def panel0_def recognized_mode_def
      updateSaveSyncSettings_def conflictModeOptions_def handleSettingChange_def
      merge_settings_def Let_def)

section \<open>Conflict resolution policy\<close>

text \<open>
  Modelled from the spec: the resolver of the conflict detector, which is backend code and
  not among the sources. A \<open>SaveFileRecord\<close> identifies one save and carries the two
  modification times, each absent or present, and the two optional hashes. For a save
  classified as conflicting the action depends on \<open>conflict_mode\<close>: \<open>newest_wins\<close> compares
  \<open>local_mtime\<close> with \<open>remote_mtime\<close> and uploads if local is strictly newer, else
  downloads; \<open>always_upload\<close> uploads; \<open>always_download\<close> downloads; \<open>ask_me\<close> takes no
  automatic action and records a pending conflict. A save is classified as conflicting
  only with both times present; with a time absent the resolver has no answer.
\<close>

datatype ConflictMode = newest_wins | always_upload | always_download | ask_me

record SaveFileRecord = SaveKey +
  local_mtime :: "int option"
  remote_mtime :: "int option"
  local_hash :: "string option"
  remote_hash :: "string option"

datatype decision = Act resolution | RecordPendingConflict

definition resolve_conflicting ::
  "ConflictMode \<Rightarrow> 'a SaveFileRecord_scheme \<Rightarrow> decision option" where
  "resolve_conflicting mode save =
     (case (local_mtime save, remote_mtime save) of
        (Some l, Some r) \<Rightarrow>
          Some (case mode of
                  newest_wins \<Rightarrow> (if r < l then Act upload else Act download)
                | always_upload \<Rightarrow> Act upload
                | always_download \<Rightarrow> Act download
                | ask_me \<Rightarrow> RecordPendingConflict)
      | _ \<Rightarrow> None)"

definition save_tied :: SaveFileRecord where
  "save_tied = \<lparr>rom_id = 7, filename = ''save.dat'', local_mtime = Some 1700000000,
     remote_mtime = Some 1700000000, local_hash = Some ''aa'', remote_hash = Some ''bb''\<rparr>"

text \<open>
  C7. Under \<open>newest_wins\<close>, a conflicting save with both times present is uploaded if
  its local time is strictly greater than its remote time and downloaded otherwise; with
  equal times it is downloaded.
\<close>

theorem newest_wins_resolution:
  "local_mtime save = Some l \<and> remote_mtime save = Some r \<longrightarrow>
     resolve_conflicting newest_wins save
       = Some (Act (if r < l then upload else download))
     \<and> (l = r \<longrightarrow> resolve_conflicting newest_wins save = Some (Act download))"
  by (simp add: resolve_conflicting_def)

theorem newest_wins_resolution_witness:
  "local_mtime save_tied = Some 1700000000 \<and> remote_mtime save_tied = Some 1700000000
   \<and> resolve_conflicting newest_wins save_tied = Some (Act download)
   \<and> resolve_conflicting newest_wins (save_tied\<lparr>local_mtime := Some 1700000001\<rparr>)
       = Some (Act upload)"
  using newest_wins_resolution [of save_tied 1700000000 1700000000]
    newest_wins_resolution
      [of "save_tied\<lparr>local_mtime := Some 1700000001\<rparr>" 1700000001 1700000000]
  by (simp add: save_tied_def)

section \<open>Sync progress\<close>

record SyncProgress =
  running :: bool
  phase :: "string option"
  current :: "int option"
  total :: "int option"
  message :: "string option"

text \<open>
  Modelled from the spec: \<open>setSyncProgress\<close> of \<open>utils/syncProgress\<close>, which is not among
  the sources. One \<open>SyncProgress\<close> value exists process-wide, and a write replaces the
  whole value. The function takes the new value and the value held, and returns the value
  held afterwards.
\<close>

definition setSyncProgress :: "SyncProgress \<Rightarrow> SyncProgress \<Rightarrow> SyncProgress" where
  "setSyncProgress progress held = progress"

text \<open>The listener the plugin registers for \<open>sync_progress\<close> events.\<close>

definition syncProgressListener :: "SyncProgress \<Rightarrow> SyncProgress \<Rightarrow> SyncProgress" where
  "syncProgressListener progress held = setSyncProgress progress held"

text \<open>Events are delivered to the listener one after the other, in the order received.\<close>

fun deliver :: "SyncProgress list \<Rightarrow> SyncProgress \<Rightarrow> SyncProgress" where
  "deliver [] held = held"
| "deliver (progress # later) held = deliver later (syncProgressListener progress held)"

lemma deliver_append:
  "deliver (events @ later) held = deliver later (deliver events held)"
  by (induction events arbitrary: held) simp_all

definition progress_syncing :: SyncProgress where
  "progress_syncing = \<lparr>running = True, phase = Some ''syncing'', current = Some 2,
     total = Some 5, message = Some ''Syncing saves''\<rparr>"

definition progress_bare :: SyncProgress where
  "progress_bare = \<lparr>running = False, phase = None, current = None, total = None,
     message = None\<rparr>"

text \<open>
  C6. After a \<open>sync_progress\<close> event the value held is the event's value, whatever was
  held before: no field of the old value survives, also where the event leaves an
  optional field out. After any sequence of events the value held is that of the last.
\<close>

theorem sync_progress_replaced:
  "syncProgressListener progress held = progress
   \<and> deliver (events @ [progress]) held = progress"
  by (simp add: deliver_append syncProgressListener_def setSyncProgress_def)

theorem sync_progress_replaced_witness:
  "syncProgressListener progress_bare progress_syncing = progress_bare
   \<and> SyncProgress.message (syncProgressListener progress_bare progress_syncing) = None
   \<and> deliver ([progress_bare, progress_syncing] @ [progress_bare]) progress_syncing
       = progress_bare"
  using sync_progress_replaced
    [of progress_bare progress_syncing "[progress_bare, progress_syncing]"]
  by (simp add: progress_bare_def syncProgressListener_def setSyncProgress_def)

section \<open>Platform toggles\<close>

text \<open>
  A platform as the panel \<open>PlatformSync\<close> lists it. The declaration of
  \<open>PlatformSyncSetting\<close> is not among the sources; the fields are those the panel reads.
  The functions below work on any extension of the record:
  \<open>{ ...p, sync_enabled: enabled }\<close> copies every other field.
\<close>

record PlatformSyncSetting =
  id' :: int
  name :: string
  rom_count :: int
  sync_enabled :: bool








section \<open>Steam collections\<close>

text \<open>
  \<open>collectionStore\<close> is an object of the Steam client: the repository declares it and
  does not define it. A collection is kept with the fields of the declaration (the method
  \<open>AsDragDropCollection\<close> is left out); the store is its array \<open>userCollections\<close>, and
  \<open>collectionStore | undefined\<close> is an \<open>option\<close>.
\<close>

record SteamCollection =
  id' :: string
  displayName :: string
  bIsDynamic :: bool
  visibleApps :: "int set"

record collectionStore =
  userCollections :: "SteamCollection list"

datatype store_call =
    CreateCollection string "int list"
  | SetAppsInCollection string "int list"

text \<open>
  What the Steam client does on a call is not the repository's to decide, so it is taken
  as follows, from the declaration and the names: \<open>SetAppsInCollection(id, apps)\<close> makes
  \<open>apps\<close> the apps of the collection with that id, and \<open>CreateCollection(name, apps)\<close>
  adds a collection of that name with those apps, under an id the client chooses. Either
  call may throw, and then changes nothing. The client's part is a record: which calls
  throw, and the id given to a new collection.
\<close>

record steam_client =
  throws :: "store_call \<Rightarrow> bool"
  new_id :: "SteamCollection list \<Rightarrow> string"

fun perform :: "steam_client \<Rightarrow> store_call \<Rightarrow> collectionStore \<Rightarrow> error + collectionStore" where
  "perform client (SetAppsInCollection i apps) store =
     (if throws client (SetAppsInCollection i apps) then Inl ApiError
      else Inr (store\<lparr>userCollections :=
                  map (\<lambda>c. if SteamCollection.id' c = i then c\<lparr>visibleApps := set apps\<rparr> else c)
                    (userCollections store)\<rparr>))"
| "perform client (CreateCollection name' apps) store =
     (if throws client (CreateCollection name' apps) then Inl ApiError
      else Inr (store\<lparr>userCollections :=
                  userCollections store @
                    [\<lparr>id' = new_id client (userCollections store), displayName = name',
                      bIsDynamic = False, visibleApps = set apps\<rparr>]\<rparr>))"

definition startsWith :: "string \<Rightarrow> string \<Rightarrow> bool" where
  "startsWith s p = prefix p s"

text \<open>
  The functions of the collection module take the client, their argument and the store,
  and return the store afterwards with the calls made on it, in order, thrown or not.
  \<open>createOrUpdateCollections\<close> takes the entries of \<open>platformAppIds\<close> in the order
  \<open>Object.entries\<close> yields them; each call has a \<open>try\<close> of its own, and a call that
  throws is logged and the loop goes on.
\<close>

fun createOrUpdate_loop ::
  "steam_client \<Rightarrow> (string \<times> int list) list \<Rightarrow> collectionStore
     \<Rightarrow> collectionStore \<times> store_call list" where
  "createOrUpdate_loop client [] store = (store, [])"
| "createOrUpdate_loop client ((platformName, appIds) # rest) store =
     (let collectionName = ''RomM: '' @ platformName;
          existing = find (\<lambda>c. displayName c = collectionName) (userCollections store);
          (store1, call) =
            (case existing of
               Some ex \<Rightarrow>
                 (case perform client (SetAppsInCollection (SteamCollection.id' ex) appIds) store of
                    Inr store' \<Rightarrow> (store', SetAppsInCollection (SteamCollection.id' ex) appIds)
                  | Inl setErr \<Rightarrow> (store, SetAppsInCollection (SteamCollection.id' ex) appIds))
             | None \<Rightarrow>
                 (case perform client (CreateCollection collectionName appIds) store of
                    Inr store' \<Rightarrow> (store', CreateCollection collectionName appIds)
                  | Inl createErr \<Rightarrow> (store, CreateCollection collectionName appIds)));
          (store2, calls) = createOrUpdate_loop client rest store1
      in (store2, call # calls))"

definition createOrUpdateCollections ::
  "steam_client \<Rightarrow> (string \<times> int list) list \<Rightarrow> collectionStore option
     \<Rightarrow> collectionStore option \<times> store_call list" where
  "createOrUpdateCollections client platformAppIds cs =
     (case cs of
        None \<Rightarrow> (None, [])
      | Some store \<Rightarrow>
          (let (store', calls) = createOrUpdate_loop client platformAppIds store
           in (Some store', calls)))"

text \<open>
  \<open>clearAllRomMCollections\<close> has one \<open>try\<close> around its loop: the first call that throws
  ends it.
\<close>

fun clearAll_loop ::
  "steam_client \<Rightarrow> SteamCollection list \<Rightarrow> collectionStore
     \<Rightarrow> collectionStore \<times> store_call list" where
  "clearAll_loop client [] store = (store, [])"
| "clearAll_loop client (c # rest) store =
     (case perform client (SetAppsInCollection (SteamCollection.id' c) []) store of
        Inl e \<Rightarrow> (store, [SetAppsInCollection (SteamCollection.id' c) []])
      | Inr store' \<Rightarrow>
          (let (store2, calls) = clearAll_loop client rest store'
           in (store2, SetAppsInCollection (SteamCollection.id' c) [] # calls)))"

definition clearAllRomMCollections ::
  "steam_client \<Rightarrow> collectionStore option \<Rightarrow> collectionStore option \<times> store_call list" where
  "clearAllRomMCollections client cs =
     (case cs of
        None \<Rightarrow> (None, [])
      | Some store \<Rightarrow>
          (let rommCollections =
                 filter (\<lambda>c. startsWith (displayName c) ''RomM: '') (userCollections store);
               (store', calls) = clearAll_loop client rommCollections store
           in (Some store', calls)))"

text \<open>
  \<open>try { call } catch { log }\<close>: the store after a call that may throw.
\<close>

definition attempt :: "steam_client \<Rightarrow> store_call \<Rightarrow> collectionStore \<Rightarrow> collectionStore" where
  "attempt client call store =
     (case perform client call store of Inr store' \<Rightarrow> store' | Inl e \<Rightarrow> store)"

text \<open>
  The call the loop of \<open>createOrUpdateCollections\<close> owes a platform on a given store: an
  update of the collection named \<open>RomM: <platformName>\<close> if the store has one, and the
  creation of a collection of that name otherwise.
\<close>

definition chosen_call :: "collectionStore \<Rightarrow> string \<times> int list \<Rightarrow> store_call" where
  "chosen_call store entry =
     (case find (\<lambda>c. displayName c = ''RomM: '' @ fst entry) (userCollections store) of
        Some ex \<Rightarrow> SetAppsInCollection (SteamCollection.id' ex) (snd entry)
      | None \<Rightarrow> CreateCollection (''RomM: '' @ fst entry) (snd entry))"

text \<open>
  The collections \<open>clearAllRomMCollections\<close> gets to before a call throws.
\<close>

definition cleared :: "steam_client \<Rightarrow> SteamCollection list \<Rightarrow> SteamCollection list" where
  "cleared client cols =
     takeWhile (\<lambda>c. \<not> throws client (SetAppsInCollection (SteamCollection.id' c) [])) cols"

definition collections0 :: "SteamCollection list" where
  "collections0 =
     [\<lparr>id' = ''uc-1'', displayName = ''RomM: SNES'', bIsDynamic = False, visibleApps = {101, 102}\<rparr>,
      \<lparr>id' = ''uc-2'', displayName = ''Favorites'', bIsDynamic = False, visibleApps = {5}\<rparr>,
      \<lparr>id' = ''uc-3'', displayName = ''RomM: Game Boy'', bIsDynamic = False, visibleApps = {201}\<rparr>]"

definition client_ok :: steam_client where
  "client_ok = \<lparr>throws = (\<lambda>call. False), new_id = (\<lambda>cs. ''uc-new'')\<rparr>"

definition client_first_fails :: steam_client where
  "client_first_fails =
     \<lparr>throws = (\<lambda>call. call = SetAppsInCollection ''uc-1'' []), new_id = (\<lambda>cs. ''uc-new'')\<rparr>"

definition client_last_fails :: steam_client where
  "client_last_fails =
     \<lparr>throws = (\<lambda>call. call = SetAppsInCollection ''uc-3'' []), new_id = (\<lambda>cs. ''uc-new'')\<rparr>"

definition client_failing :: steam_client where
  "client_failing = \<lparr>throws = (\<lambda>call. True), new_id = (\<lambda>cs. ''uc-new'')\<rparr>"

definition platformAppIds0 :: "(string \<times> int list) list" where
  "platformAppIds0 = [(''SNES'', [101, 103]), (''N64'', [301]), (''Game Boy'', [201])]"

lemma createOrUpdate_loop_Cons:
  "createOrUpdate_loop client (entry # rest) store =
     (fst (createOrUpdate_loop client rest (attempt client (chosen_call store entry) store)),
      chosen_call store entry
        # snd (createOrUpdate_loop client rest (attempt client (chosen_call store entry) store)))"
  by (cases entry)
    (simp add: chosen_call_def attempt_def Let_def split: option.splits sum.splits prod.splits)

lemma createOrUpdate_loop_length:
  "length (snd (createOrUpdate_loop client entries store)) = length entries"
  by (induction entries arbitrary: store)
    (simp_all add: createOrUpdate_loop_Cons del: createOrUpdate_loop.simps(2))

lemma createOrUpdate_loop_nth:
  "k < length entries \<Longrightarrow>
     snd (createOrUpdate_loop client entries store) ! k
       = chosen_call (fst (createOrUpdate_loop client (take k entries) store)) (entries ! k)"
proof (induction entries arbitrary: store k)
  case Nil
  then show ?case by simp
next
  case (Cons entry rest)
  show ?case
  proof (cases k)
    case 0
    then show ?thesis by (simp add: createOrUpdate_loop_Cons del: createOrUpdate_loop.simps(2))
  next
    case (Suc j)
    with Cons.prems have "j < length rest" by simp
    from Cons.IH [OF this] Suc show ?thesis
      by (simp add: createOrUpdate_loop_Cons del: createOrUpdate_loop.simps(2))
  qed
qed

lemma createOrUpdateCollections_Some:
  "createOrUpdateCollections client platformAppIds (Some store) =
     (Some (fst (createOrUpdate_loop client platformAppIds store)),
      snd (createOrUpdate_loop client platformAppIds store))"
  by (simp add: createOrUpdateCollections_def split: prod.splits)

lemma perform_SetApps_collections:
  "userCollections (attempt client (SetAppsInCollection i apps) store)
     = (if throws client (SetAppsInCollection i apps) then userCollections store
        else map (\<lambda>c. if SteamCollection.id' c = i then c\<lparr>visibleApps := set apps\<rparr> else c)
               (userCollections store))"
  by (simp add: attempt_def)

lemma clearAll_loop_Cons:
  "clearAll_loop client (c # rest) store =
     (if throws client (SetAppsInCollection (SteamCollection.id' c) [])
      then (store, [SetAppsInCollection (SteamCollection.id' c) []])
      else (fst (clearAll_loop client rest
                  (attempt client (SetAppsInCollection (SteamCollection.id' c) []) store)),
            SetAppsInCollection (SteamCollection.id' c) []
              # snd (clearAll_loop client rest
                  (attempt client (SetAppsInCollection (SteamCollection.id' c) []) store))))"
  by (simp add: attempt_def split: prod.splits)

lemma clearAll_loop_collections:
  "userCollections (fst (clearAll_loop client cols store))
     = map (\<lambda>c. if SteamCollection.id' c \<in> SteamCollection.id' ` set (cleared client cols)
                 then c\<lparr>visibleApps := {}\<rparr> else c)
         (userCollections store)"
proof (induction cols arbitrary: store)
  case Nil
  then show ?case by (simp add: cleared_def)
next
  case (Cons c rest)
  show ?case
  proof (cases "throws client (SetAppsInCollection (SteamCollection.id' c) [])")
    case True
    then show ?thesis by (simp add: cleared_def)
  next
    case False
    then show ?thesis
      by (simp add: clearAll_loop_Cons Cons.IH perform_SetApps_collections cleared_def comp_def
          del: clearAll_loop.simps(2) cong: if_cong)
  qed
qed

lemma clearAll_loop_calls:
  "set (snd (clearAll_loop client cols store))
     \<subseteq> (\<lambda>c. SetAppsInCollection (SteamCollection.id' c) []) ` set cols"
  by (induction cols arbitrary: store)
    (auto simp add: clearAll_loop_Cons simp del: clearAll_loop.simps(2))

lemma clearAllRomMCollections_Some:
  "clearAllRomMCollections client (Some store) =
     (Some (fst (clearAll_loop client
        (filter (\<lambda>c. startsWith (displayName c) ''RomM: '') (userCollections store)) store)),
      snd (clearAll_loop client
        (filter (\<lambda>c. startsWith (displayName c) ''RomM: '') (userCollections store)) store))"
  by (simp add: clearAllRomMCollections_def Let_def split: prod.splits)

text \<open>
  C9, as amended. \<open>clearAllRomMCollections\<close> leaves the store with the collections it
  had, in their places, each either as it was or with its apps emptied: none is deleted,
  added or renamed. Every call it makes on the store is \<open>SetAppsInCollection(c.id, [])\<close>
  for a collection \<open>c\<close> whose \<open>displayName\<close> starts with \<open>RomM: \<close>. Each such collection
  that the loop gets to before a call throws has its apps replaced by the empty list, and
  so has every such collection where no call throws. Collection ids being unique, every
  collection without that prefix, and every collection the loop does not get to, is as it
  was.
\<close>

theorem clearAllRomMCollections_frame:
  "(case clearAllRomMCollections client (Some store) of
      (None, calls) \<Rightarrow> False
    | (Some store', calls) \<Rightarrow>
        (let before = userCollections store; after = userCollections store';
             reached = cleared client
                         (filter (\<lambda>c. startsWith (displayName c) ''RomM: '') before) in
           length after = length before
         \<and> (\<forall>k < length before.
               after ! k = before ! k \<or> after ! k = (before ! k)\<lparr>visibleApps := {}\<rparr>)
         \<and> (\<forall>call \<in> set calls. \<exists>c \<in> set before.
               startsWith (displayName c) ''RomM: ''
               \<and> call = SetAppsInCollection (SteamCollection.id' c) [])
         \<and> (distinct (map SteamCollection.id' before) \<longrightarrow>
              (\<forall>k < length before. \<not> startsWith (displayName (before ! k)) ''RomM: '' \<longrightarrow>
                 after ! k = before ! k))
         \<and> (\<forall>k < length before. before ! k \<in> set reached \<longrightarrow>
               after ! k = (before ! k)\<lparr>visibleApps := {}\<rparr>)
         \<and> (distinct (map SteamCollection.id' before) \<longrightarrow>
              (\<forall>k < length before. before ! k \<notin> set reached \<longrightarrow> after ! k = before ! k))
         \<and> ((\<forall>c \<in> set before. startsWith (displayName c) ''RomM: '' \<longrightarrow>
                \<not> throws client (SetAppsInCollection (SteamCollection.id' c) [])) \<longrightarrow>
              (\<forall>k < length before. startsWith (displayName (before ! k)) ''RomM: '' \<longrightarrow>
                 after ! k = (before ! k)\<lparr>visibleApps := {}\<rparr>))))"
proof -
  define before where "before = userCollections store"
  define romm where "romm = filter (\<lambda>c. startsWith (displayName c) ''RomM: '') before"
  define reached where "reached = cleared client romm"
  define S where "S = SteamCollection.id' ` set reached"
  define after where "after = userCollections (fst (clearAll_loop client romm store))"
  define calls where "calls = snd (clearAll_loop client romm store)"
  have after_map:
    "after = map (\<lambda>c. if SteamCollection.id' c \<in> S then c\<lparr>visibleApps := {}\<rparr> else c) before"
    by (simp add: after_def S_def reached_def before_def clearAll_loop_collections)
  have reached_sub: "set reached \<subseteq> set romm"
    unfolding reached_def cleared_def by (auto dest: set_takeWhileD)
  have len: "length after = length before"
    by (simp add: after_map)
  have each: "\<forall>k < length before.
      after ! k = before ! k \<or> after ! k = (before ! k)\<lparr>visibleApps := {}\<rparr>"
    by (simp add: after_map)
  have only: "\<forall>call \<in> set calls. \<exists>c \<in> set before.
      startsWith (displayName c) ''RomM: '' \<and> call = SetAppsInCollection (SteamCollection.id' c) []"
    using clearAll_loop_calls [of client romm store] unfolding calls_def romm_def by auto
  have got: "after ! k = (before ! k)\<lparr>visibleApps := {}\<rparr>"
    if k: "k < length before" and r: "before ! k \<in> set reached" for k
  proof -
    from r have "SteamCollection.id' (before ! k) \<in> S" by (simp add: S_def)
    with k show ?thesis by (simp add: after_map)
  qed
  have missed: "after ! k = before ! k"
    if d: "distinct (map SteamCollection.id' before)" and k: "k < length before"
      and nr: "before ! k \<notin> set reached" for k
  proof -
    have "SteamCollection.id' (before ! k) \<notin> S"
    proof
      assume "SteamCollection.id' (before ! k) \<in> S"
      then obtain c where c: "c \<in> set reached"
        and eq: "SteamCollection.id' (before ! k) = SteamCollection.id' c"
        by (auto simp: S_def)
      from c reached_sub have cb: "c \<in> set before" by (auto simp: romm_def)
      from d have "inj_on SteamCollection.id' (set before)" by (simp add: distinct_map)
      with eq cb k have "before ! k = c" by (auto dest: inj_onD)
      with nr c show False by simp
    qed
    with k show ?thesis by (simp add: after_map)
  qed
  have frame: "after ! k = before ! k"
    if d: "distinct (map SteamCollection.id' before)" and k: "k < length before"
      and np: "\<not> startsWith (displayName (before ! k)) ''RomM: ''" for k
  proof -
    from np reached_sub have "before ! k \<notin> set reached" by (auto simp: romm_def)
    with d k show ?thesis by (rule missed)
  qed
  have emptied: "after ! k = (before ! k)\<lparr>visibleApps := {}\<rparr>"
    if ok: "\<forall>c \<in> set before. startsWith (displayName c) ''RomM: '' \<longrightarrow>
              \<not> throws client (SetAppsInCollection (SteamCollection.id' c) [])"
      and k: "k < length before" and p: "startsWith (displayName (before ! k)) ''RomM: ''" for k
  proof -
    from ok have "reached = romm"
      unfolding reached_def cleared_def romm_def by simp
    moreover from k p have "before ! k \<in> set romm" by (simp add: romm_def)
    ultimately have "before ! k \<in> set reached" by simp
    with k show ?thesis by (rule got)
  qed
  from len each only frame got missed emptied show ?thesis
    unfolding clearAllRomMCollections_Some
    by (simp add: Let_def before_def [symmetric] romm_def [symmetric] after_def [symmetric]
        calls_def [symmetric] reached_def [symmetric])
qed

theorem clearAllRomMCollections_frame_witness:
  "distinct (map SteamCollection.id' collections0)
   \<and> \<not> throws client_ok (SetAppsInCollection ''uc-1'' [])
   \<and> \<not> throws client_ok (SetAppsInCollection ''uc-3'' [])
   \<and> clearAllRomMCollections client_ok (Some \<lparr>userCollections = collections0\<rparr>)
     = (Some \<lparr>userCollections =
          [\<lparr>id' = ''uc-1'', displayName = ''RomM: SNES'', bIsDynamic = False, visibleApps = {}\<rparr>,
           \<lparr>id' = ''uc-2'', displayName = ''Favorites'', bIsDynamic = False, visibleApps = {5}\<rparr>,
           \<lparr>id' = ''uc-3'', displayName = ''RomM: Game Boy'', bIsDynamic = False,
             visibleApps = {}\<rparr>]\<rparr>,
        [SetAppsInCollection ''uc-1'' [], SetAppsInCollection ''uc-3'' []])
   \<and> cleared client_last_fails
        (filter (\<lambda>c. startsWith (displayName c) ''RomM: '') collections0)
       = [collections0 ! 0]
   \<and> clearAllRomMCollections client_last_fails (Some \<lparr>userCollections = collections0\<rparr>)
     = (Some \<lparr>userCollections =
          [\<lparr>id' = ''uc-1'', displayName = ''RomM: SNES'', bIsDynamic = False, visibleApps = {}\<rparr>,
           \<lparr>id' = ''uc-2'', displayName = ''Favorites'', bIsDynamic = False, visibleApps = {5}\<rparr>,
           \<lparr>id' = ''uc-3'', displayName = ''RomM: Game Boy'', bIsDynamic = False,
             visibleApps = {201}\<rparr>]\<rparr>,
        [SetAppsInCollection ''uc-1'' [], SetAppsInCollection ''uc-3'' []])"
  using clearAllRomMCollections_frame
    [where client = client_ok and store = "\<lparr>userCollections = collections0\<rparr>"]
    clearAllRomMCollections_frame
    [where client = client_last_fails and store = "\<lparr>userCollections = collections0\<rparr>"]
  by (simp add: clearAllRomMCollections_def collections0_def client_ok_def
      client_last_fails_def cleared_def startsWith_def Let_def)

text \<open>
  The claim as first stated has the apps of every collection with the prefix replaced.
  Where the call for the first of them throws, the loop ends there: the store is as it
  was, no call is made for the second, and the second keeps its apps.
\<close>

theorem clearAllRomMCollections_stops_at_throw:
  "clearAllRomMCollections client_first_fails (Some \<lparr>userCollections = collections0\<rparr>)
     = (Some \<lparr>userCollections = collections0\<rparr>, [SetAppsInCollection ''uc-1'' []])
   \<and> startsWith (displayName (collections0 ! 2)) ''RomM: ''
   \<and> visibleApps (collections0 ! 2) = {201}
   \<and> visibleApps (collections0 ! 2) \<noteq> {}"
  by (simp add: clearAllRomMCollections_def collections0_def client_first_fails_def
      startsWith_def Let_def)

text \<open>
  C10. With the store available, \<open>createOrUpdateCollections\<close> makes one call for each
  platform of its input, in the order of the input, whichever of these calls throw: for
  the platform at place \<open>k\<close> it is the update of the collection named after the platform
  if the store, as the platforms before it left it, has one, and the creation of that
  collection otherwise.
\<close>

theorem createOrUpdateCollections_each_platform:
  "(case createOrUpdateCollections client platformAppIds (Some store) of
      (cs', calls) \<Rightarrow>
        cs' \<noteq> None
      \<and> length calls = length platformAppIds
      \<and> (\<forall>k < length platformAppIds.
            calls ! k =
              chosen_call (fst (createOrUpdate_loop client (take k platformAppIds) store))
                (platformAppIds ! k)))"
  by (simp add: createOrUpdateCollections_Some createOrUpdate_loop_length
      createOrUpdate_loop_nth)

theorem createOrUpdateCollections_each_platform_witness:
  "snd (createOrUpdateCollections client_failing platformAppIds0
          (Some \<lparr>userCollections = collections0\<rparr>))
     = [SetAppsInCollection ''uc-1'' [101, 103], CreateCollection ''RomM: N64'' [301],
        SetAppsInCollection ''uc-3'' [201]]
   \<and> snd (createOrUpdateCollections client_ok platformAppIds0
          (Some \<lparr>userCollections = collections0\<rparr>))
     = [SetAppsInCollection ''uc-1'' [101, 103], CreateCollection ''RomM: N64'' [301],
        SetAppsInCollection ''uc-3'' [201]]"
  using createOrUpdateCollections_each_platform
    [where client = client_failing and platformAppIds = platformAppIds0
       and store = "\<lparr>userCollections = collections0\<rparr>"]
  by (simp add: createOrUpdateCollections_def platformAppIds0_def collections0_def
      client_failing_def client_ok_def Let_def)

end
